theory Spec2Isabelle
  imports Main
begin

section \<open>Data model of \<^verbatim>\<open>src/circuit-breaker.ts\<close>\<close>

text \<open>
  The enum \<^verbatim>\<open>CircuitState\<close> and the interface \<^verbatim>\<open>CircuitBreakerConfig\<close> are imported by the
  source from \<^verbatim>\<open>./types\<close>. Their members are the ones \<^verbatim>\<open>circuit-breaker.ts\<close> uses:
  the three states, and the three configuration fields read by the breaker.
  JavaScript numbers are modelled as \<open>int\<close>: the counters only ever hold integers, and
  \<^verbatim>\<open>Date.now()\<close> returns whole milliseconds. The clock is a parameter \<open>now\<close> of every
  method that reads it.
\<close>

datatype CircuitState = CLOSED | OPEN | HALF_OPEN

record CircuitBreakerConfig =
  failureThreshold :: int
  recoveryTimeout :: int
  halfOpenAttempts :: int

text \<open>
  Configurations are JavaScript objects, held by reference. The store maps a reference
  (an index) to the object's current contents; allocating an object appends to the store.
\<close>

type_synonym config_ref = nat
type_synonym config_store = "CircuitBreakerConfig list"

text \<open>\<^verbatim>\<open>Partial<CircuitBreakerConfig>\<close>: every field may be absent.\<close>

record PartialConfig =
  p_failureThreshold :: "int option"
  p_recoveryTimeout :: "int option"
  p_halfOpenAttempts :: "int option"

text \<open>
  The notifications passed to \<^verbatim>\<open>this.emit\<close>, with their payloads:
  \<^verbatim>\<open>'opened'\<close> (agentName, failureCount, threshold), \<^verbatim>\<open>'closed'\<close> (agentName, successCount),
  \<^verbatim>\<open>'half-open'\<close> (agentName, attemptNumber) and \<^verbatim>\<open>'reset'\<close> (agentName).
  Every method returns the list of notifications it emitted, in order.
\<close>

datatype event =
    Opened string int int
  | Closed string int
  | HalfOpened string int
  | ResetEvent string

text \<open>The private fields of class \<^verbatim>\<open>CircuitBreaker\<close>; \<open>config\<close> is a reference.\<close>

record CircuitBreaker =
  state :: CircuitState
  failureCount :: int
  successCount :: int
  lastFailureTime :: int
  halfOpenAttempts :: int
  config :: config_ref
  agentName :: string

text \<open>The object literal returned by \<^verbatim>\<open>getStatus\<close>.\<close>

record BreakerStatus =
  status_state :: CircuitState
  status_failureCount :: int
  status_successCount :: int
  status_canExecute :: bool

section \<open>The breaker\<close>

text \<open>\<^verbatim>\<open>this.config\<close>, read through the store.\<close>

definition this_config :: "config_store \<Rightarrow> CircuitBreaker \<Rightarrow> CircuitBreakerConfig" where
  "this_config cs b = cs ! config b"

text \<open>
  The constructor: field initialisers, then \<^verbatim>\<open>this.config = config\<close>, which stores the
  reference it was given. (The default argument is the constant
  \<^verbatim>\<open>DEFAULT_CIRCUIT_BREAKER_CONFIG\<close> of \<^verbatim>\<open>./types\<close>; here the caller always passes the reference.)
\<close>

definition new_CircuitBreaker :: "string \<Rightarrow> config_ref \<Rightarrow> CircuitBreaker" where
  "new_CircuitBreaker name c =
     \<lparr>state = CLOSED, failureCount = 0, successCount = 0, lastFailureTime = 0,
      halfOpenAttempts = 0, config = c, agentName = name\<rparr>"

definition shouldAttemptRecovery :: "config_store \<Rightarrow> int \<Rightarrow> CircuitBreaker \<Rightarrow> bool" where
  "shouldAttemptRecovery cs now b =
     (now - lastFailureTime b \<ge> recoveryTimeout (this_config cs b))"

definition transitionToOpen :: "config_store \<Rightarrow> CircuitBreaker \<Rightarrow> CircuitBreaker \<times> event list" where
  "transitionToOpen cs b =
     (if state b \<noteq> OPEN
      then (b\<lparr>state := OPEN, halfOpenAttempts := 0\<rparr>,
            [Opened (agentName b) (failureCount b) (failureThreshold (this_config cs b))])
      else (b, []))"

definition transitionToClosed :: "CircuitBreaker \<Rightarrow> CircuitBreaker \<times> event list" where
  "transitionToClosed b =
     (if state b \<noteq> CLOSED
      then (b\<lparr>state := CLOSED, failureCount := 0, halfOpenAttempts := 0\<rparr>,
            [Closed (agentName b) (successCount b)])
      else (b, []))"

text \<open>The increment stands after the conditional block, so it runs on every call.\<close>

definition transitionToHalfOpen :: "CircuitBreaker \<Rightarrow> CircuitBreaker \<times> event list" where
  "transitionToHalfOpen b =
     (case (if state b \<noteq> HALF_OPEN
            then (b\<lparr>state := HALF_OPEN, halfOpenAttempts := 0\<rparr>, [HalfOpened (agentName b) 0])
            else (b, []))
      of (b1, ev) \<Rightarrow> (b1\<lparr>halfOpenAttempts := halfOpenAttempts b1 + 1\<rparr>, ev))"

text \<open>
  \<^verbatim>\<open>canExecute\<close>: the answer, the breaker afterwards, the notifications. The \<^verbatim>\<open>default\<close>
  branch of the source's switch is unreachable for the three states.
\<close>

definition canExecute :: "config_store \<Rightarrow> int \<Rightarrow> CircuitBreaker \<Rightarrow> bool \<times> CircuitBreaker \<times> event list" where
  "canExecute cs now b =
     (case state b of
        CLOSED \<Rightarrow> (True, b, [])
      | OPEN \<Rightarrow>
          (if shouldAttemptRecovery cs now b
           then (case transitionToHalfOpen b of (b', ev) \<Rightarrow> (True, b', ev))
           else (False, b, []))
      | HALF_OPEN \<Rightarrow>
          (halfOpenAttempts b < CircuitBreakerConfig.halfOpenAttempts (this_config cs b), b, []))"

definition recordSuccess :: "CircuitBreaker \<Rightarrow> CircuitBreaker \<times> event list" where
  "recordSuccess b =
     (let b1 = b\<lparr>successCount := successCount b + 1\<rparr> in
      if state b1 = HALF_OPEN then transitionToClosed b1
      else if state b1 = CLOSED
        then (b1\<lparr>failureCount := max 0 (failureCount b1 - 1)\<rparr>, [])
        else (b1, []))"

definition recordFailure :: "config_store \<Rightarrow> int \<Rightarrow> CircuitBreaker \<Rightarrow> CircuitBreaker \<times> event list" where
  "recordFailure cs now b =
     (let b1 = b\<lparr>failureCount := failureCount b + 1, lastFailureTime := now\<rparr> in
      if state b1 = HALF_OPEN then transitionToOpen cs b1
      else if state b1 = CLOSED
        then (if failureCount b1 \<ge> failureThreshold (this_config cs b1)
              then transitionToOpen cs b1 else (b1, []))
        else (b1, []))"

definition reset :: "CircuitBreaker \<Rightarrow> CircuitBreaker \<times> event list" where
  "reset b =
     (b\<lparr>state := CLOSED, failureCount := 0, successCount := 0,
        halfOpenAttempts := 0, lastFailureTime := 0\<rparr>,
      [ResetEvent (agentName b)])"

text \<open>
  \<^verbatim>\<open>getConfig\<close> returns \<^verbatim>\<open>{ ...this.config }\<close>: a newly allocated object with the same
  fields. The result is the new reference and the store with the new object.
\<close>

definition getConfig :: "config_store \<Rightarrow> CircuitBreaker \<Rightarrow> config_ref \<times> config_store" where
  "getConfig cs b = (length cs, cs @ [this_config cs b])"

text \<open>\<^verbatim>\<open>{ ...this.config, ...config }\<close>: a field of the partial record wins when present.\<close>

definition merge_config :: "CircuitBreakerConfig \<Rightarrow> PartialConfig \<Rightarrow> CircuitBreakerConfig" where
  "merge_config c p =
     \<lparr>failureThreshold = (case p_failureThreshold p of Some v \<Rightarrow> v | None \<Rightarrow> failureThreshold c),
      recoveryTimeout = (case p_recoveryTimeout p of Some v \<Rightarrow> v | None \<Rightarrow> recoveryTimeout c),
      CircuitBreakerConfig.halfOpenAttempts =
        (case p_halfOpenAttempts p of Some v \<Rightarrow> v
         | None \<Rightarrow> CircuitBreakerConfig.halfOpenAttempts c)\<rparr>"

text \<open>\<^verbatim>\<open>setConfig\<close> allocates the merged object and points \<^verbatim>\<open>this.config\<close> at it.\<close>

definition setConfig :: "config_store \<Rightarrow> CircuitBreaker \<Rightarrow> PartialConfig \<Rightarrow> config_store \<times> CircuitBreaker" where
  "setConfig cs b p = (cs @ [merge_config (this_config cs b) p], b\<lparr>config := length cs\<rparr>)"

text \<open>
  \<^verbatim>\<open>getStatus\<close>: the properties of the object literal are evaluated in order, so the
  \<open>state\<close> and the counters are read before \<^verbatim>\<open>this.canExecute()\<close> runs.
\<close>

definition getStatus :: "config_store \<Rightarrow> int \<Rightarrow> CircuitBreaker \<Rightarrow> BreakerStatus \<times> CircuitBreaker \<times> event list" where
  "getStatus cs now b =
     (let s = state b; f = failureCount b; sc = successCount b in
      case canExecute cs now b of
        (ok, b', ev) \<Rightarrow>
          (\<lparr>status_state = s, status_failureCount = f, status_successCount = sc,
            status_canExecute = ok\<rparr>, b', ev))"

text \<open>
  What a caller does when it assigns to the fields of a configuration object it holds a
  reference to: the object at \<open>r\<close> now has the contents \<open>v\<close>.
\<close>

definition assign_config :: "config_store \<Rightarrow> config_ref \<Rightarrow> CircuitBreakerConfig \<Rightarrow> config_store" where
  "assign_config cs r v = cs[r := v]"

section \<open>Calls on a breaker\<close>

text \<open>
  The public methods of the class, as calls a client can make; the methods that read the
  clock carry the time of the call.
\<close>

datatype call =
    GetState | IsClosed | IsOpen | IsHalfOpen
  | CanExecute int
  | RecordSuccess
  | RecordFailure int
  | Reset
  | GetFailureCount | GetSuccessCount
  | GetConfig
  | SetConfig PartialConfig
  | GetStatus int

datatype ret =
    RVoid
  | RBool bool
  | RNum int
  | RState CircuitState
  | RConfig config_ref
  | RStatus BreakerStatus

record outcome =
  returned :: ret
  store :: config_store
  breaker :: CircuitBreaker
  emitted :: "event list"

definition call_breaker :: "config_store \<Rightarrow> CircuitBreaker \<Rightarrow> call \<Rightarrow> outcome" where
  "call_breaker cs b c =
     (case c of
        GetState \<Rightarrow> \<lparr>returned = RState (state b), store = cs, breaker = b, emitted = []\<rparr>
      | IsClosed \<Rightarrow> \<lparr>returned = RBool (state b = CLOSED), store = cs, breaker = b, emitted = []\<rparr>
      | IsOpen \<Rightarrow> \<lparr>returned = RBool (state b = OPEN), store = cs, breaker = b, emitted = []\<rparr>
      | IsHalfOpen \<Rightarrow> \<lparr>returned = RBool (state b = HALF_OPEN), store = cs, breaker = b, emitted = []\<rparr>
      | CanExecute now \<Rightarrow>
          (case canExecute cs now b of
             (ok, b', ev) \<Rightarrow> \<lparr>returned = RBool ok, store = cs, breaker = b', emitted = ev\<rparr>)
      | RecordSuccess \<Rightarrow>
          (case recordSuccess b of
             (b', ev) \<Rightarrow> \<lparr>returned = RVoid, store = cs, breaker = b', emitted = ev\<rparr>)
      | RecordFailure now \<Rightarrow>
          (case recordFailure cs now b of
             (b', ev) \<Rightarrow> \<lparr>returned = RVoid, store = cs, breaker = b', emitted = ev\<rparr>)
      | Reset \<Rightarrow>
          (case reset b of
             (b', ev) \<Rightarrow> \<lparr>returned = RVoid, store = cs, breaker = b', emitted = ev\<rparr>)
      | GetFailureCount \<Rightarrow> \<lparr>returned = RNum (failureCount b), store = cs, breaker = b, emitted = []\<rparr>
      | GetSuccessCount \<Rightarrow> \<lparr>returned = RNum (successCount b), store = cs, breaker = b, emitted = []\<rparr>
      | GetConfig \<Rightarrow>
          (case getConfig cs b of
             (r, cs') \<Rightarrow> \<lparr>returned = RConfig r, store = cs', breaker = b, emitted = []\<rparr>)
      | SetConfig p \<Rightarrow>
          (case setConfig cs b p of
             (cs', b') \<Rightarrow> \<lparr>returned = RVoid, store = cs', breaker = b', emitted = []\<rparr>)
      | GetStatus now \<Rightarrow>
          (case getStatus cs now b of
             (st, b', ev) \<Rightarrow> \<lparr>returned = RStatus st, store = cs, breaker = b', emitted = ev\<rparr>))"

text \<open>A client's sequence of calls: what each call returned, and the breaker at the end.\<close>

primrec answers :: "config_store \<Rightarrow> CircuitBreaker \<Rightarrow> call list \<Rightarrow> ret list" where
  "answers cs b [] = []"
| "answers cs b (c # rest) =
     returned (call_breaker cs b c)
       # answers (store (call_breaker cs b c)) (breaker (call_breaker cs b c)) rest"

primrec after_calls :: "config_store \<Rightarrow> CircuitBreaker \<Rightarrow> call list \<Rightarrow> CircuitBreaker" where
  "after_calls cs b [] = b"
| "after_calls cs b (c # rest) =
     after_calls (store (call_breaker cs b c)) (breaker (call_breaker cs b c)) rest"

section \<open>The manager\<close>

text \<open>
  Breakers are objects too: the manager's \<^verbatim>\<open>Map<string, CircuitBreaker>\<close> holds references
  into a store of breakers, and \<^verbatim>\<open>new CircuitBreaker\<close> appends to that store.
\<close>

type_synonym breaker_ref = nat
type_synonym breaker_store = "CircuitBreaker list"

record CircuitBreakerManager =
  breakers :: "string \<rightharpoonup> breaker_ref"
  defaultConfig :: config_ref

definition new_CircuitBreakerManager :: "config_ref \<Rightarrow> CircuitBreakerManager" where
  "new_CircuitBreakerManager d = \<lparr>breakers = Map.empty, defaultConfig = d\<rparr>"

text \<open>
  \<^verbatim>\<open>getBreaker\<close>: an object is always truthy, so \<^verbatim>\<open>!breaker\<close> holds exactly when the name has
  no entry, and \<^verbatim>\<open>config || this.defaultConfig\<close> is the argument exactly when one was passed.
\<close>

definition getBreaker ::
  "breaker_store \<Rightarrow> CircuitBreakerManager \<Rightarrow> string \<Rightarrow> config_ref option
     \<Rightarrow> breaker_ref \<times> breaker_store \<times> CircuitBreakerManager" where
  "getBreaker h m name cfg =
     (case breakers m name of
        Some a \<Rightarrow> (a, h, m)
      | None \<Rightarrow>
          (let c = (case cfg of Some c' \<Rightarrow> c' | None \<Rightarrow> defaultConfig m);
               a = length h
           in (a, h @ [new_CircuitBreaker name c], m\<lparr>breakers := (breakers m)(name \<mapsto> a)\<rparr>)))"

definition removeBreaker :: "CircuitBreakerManager \<Rightarrow> string \<Rightarrow> bool \<times> CircuitBreakerManager" where
  "removeBreaker m name =
     (breakers m name \<noteq> None, m\<lparr>breakers := (breakers m)(name := None)\<rparr>)"

section \<open>Concrete configurations used in the examples\<close>

text \<open>The configuration of the README: threshold 5, timeout 60000 ms, 3 half-open attempts.\<close>

definition readme_config :: CircuitBreakerConfig where
  "readme_config =
     \<lparr>failureThreshold = 5, recoveryTimeout = 60000, CircuitBreakerConfig.halfOpenAttempts = 3\<rparr>"

text \<open>A breaker named \<open>svc\<close>, constructed with the configuration object at reference 0.\<close>

definition svc :: CircuitBreaker where
  "svc = new_CircuitBreaker ''svc'' 0"

text \<open>The same breaker after five failures reported at time 0.\<close>

definition tripped :: CircuitBreaker where
  "tripped = after_calls [readme_config] svc
     [RecordFailure 0, RecordFailure 0, RecordFailure 0, RecordFailure 0, RecordFailure 0]"

section \<open>The methods, state by state\<close>

lemmas example_defs = svc_def new_CircuitBreaker_def readme_config_def this_config_def

lemma recordSuccess_cases:
  "recordSuccess b =
     (case state b of
        HALF_OPEN \<Rightarrow>
          (b\<lparr>successCount := successCount b + 1, state := CLOSED, failureCount := 0,
             halfOpenAttempts := 0\<rparr>,
           [Closed (agentName b) (successCount b + 1)])
      | CLOSED \<Rightarrow>
          (b\<lparr>successCount := successCount b + 1,
             failureCount := max 0 (failureCount b - 1)\<rparr>, [])
      | OPEN \<Rightarrow> (b\<lparr>successCount := successCount b + 1\<rparr>, []))"
  by (cases "state b") (simp_all add: recordSuccess_def transitionToClosed_def Let_def)

lemma recordFailure_cases:
  "recordFailure cs now b =
     (case state b of
        HALF_OPEN \<Rightarrow>
          (b\<lparr>failureCount := failureCount b + 1, lastFailureTime := now, state := OPEN,
             halfOpenAttempts := 0\<rparr>,
           [Opened (agentName b) (failureCount b + 1) (failureThreshold (this_config cs b))])
      | CLOSED \<Rightarrow>
          (if failureThreshold (this_config cs b) \<le> failureCount b + 1
           then (b\<lparr>failureCount := failureCount b + 1, lastFailureTime := now, state := OPEN,
                   halfOpenAttempts := 0\<rparr>,
                 [Opened (agentName b) (failureCount b + 1) (failureThreshold (this_config cs b))])
           else (b\<lparr>failureCount := failureCount b + 1, lastFailureTime := now\<rparr>, []))
      | OPEN \<Rightarrow> (b\<lparr>failureCount := failureCount b + 1, lastFailureTime := now\<rparr>, []))"
  by (cases "state b")
     (simp_all add: recordFailure_def transitionToOpen_def this_config_def Let_def)

lemma canExecute_cases:
  "canExecute cs now b =
     (case state b of
        CLOSED \<Rightarrow> (True, b, [])
      | OPEN \<Rightarrow>
          (if recoveryTimeout (this_config cs b) \<le> now - lastFailureTime b
           then (True, b\<lparr>state := HALF_OPEN, halfOpenAttempts := 1\<rparr>,
                 [HalfOpened (agentName b) 0])
           else (False, b, []))
      | HALF_OPEN \<Rightarrow>
          (halfOpenAttempts b < CircuitBreakerConfig.halfOpenAttempts (this_config cs b), b, []))"
  by (cases "state b")
     (simp_all add: canExecute_def shouldAttemptRecovery_def transitionToHalfOpen_def)

lemma getStatus_cases:
  "getStatus cs now b =
     (\<lparr>status_state = state b, status_failureCount = failureCount b,
       status_successCount = successCount b,
       status_canExecute = fst (canExecute cs now b)\<rparr>,
      snd (canExecute cs now b))"
  by (simp add: getStatus_def Let_def split: prod.splits)

lemmas call_simps = call_breaker_def canExecute_cases recordSuccess_cases recordFailure_cases
  getStatus_cases reset_def getConfig_def setConfig_def

lemma call_RecordFailure:
  "call_breaker cs b (RecordFailure t) =
     \<lparr>returned = RVoid, store = cs, breaker = fst (recordFailure cs t b),
      emitted = snd (recordFailure cs t b)\<rparr>"
  by (simp add: call_breaker_def split: prod.splits)

lemma call_CanExecute:
  "call_breaker cs b (CanExecute t) =
     \<lparr>returned = RBool (fst (canExecute cs t b)), store = cs,
      breaker = fst (snd (canExecute cs t b)), emitted = snd (snd (canExecute cs t b))\<rparr>"
  by (simp add: call_breaker_def split: prod.splits)

lemma tripped_eq:
  "tripped = svc\<lparr>state := OPEN, failureCount := 5\<rparr>"
  by (simp add: tripped_def call_RecordFailure recordFailure_cases example_defs)

section \<open>Half-open probing\<close>

text \<open>
  In \<open>HALF_OPEN\<close> the query compares the counter with the limit and changes nothing, so
  while the counter is below the limit every query is permitted, however many are made.
\<close>

lemma half_open_queries_permitted:
  "state b = HALF_OPEN \<Longrightarrow>
   halfOpenAttempts b < CircuitBreakerConfig.halfOpenAttempts (this_config cs b) \<Longrightarrow>
   answers cs b (map CanExecute ts) = map (\<lambda>t. RBool True) ts \<and>
   after_calls cs b (map CanExecute ts) = b"
  by (induction ts) (simp_all add: call_CanExecute canExecute_cases)

text \<open>
  C1: in \<open>HALF_OPEN\<close>, at most \<open>config.halfOpenAttempts\<close> permission queries return true
  before further queries are denied. The code does not do this. With the limit 3, after
  five failures at time 0 the query at 59999 is denied, the query at 60000 makes the
  transition and is permitted, and the four queries after it are all permitted as well:
  five permitted queries with no success or failure reported in between, and the breaker
  still \<open>HALF_OPEN\<close>.
\<close>

theorem half_open_probes_not_limited:
  "answers [readme_config] svc
     [RecordFailure 0, RecordFailure 0, RecordFailure 0, RecordFailure 0, RecordFailure 0,
      CanExecute 59999,
      CanExecute 60000, CanExecute 60001, CanExecute 60002, CanExecute 60003, CanExecute 60004] =
     [RVoid, RVoid, RVoid, RVoid, RVoid,
      RBool False,
      RBool True, RBool True, RBool True, RBool True, RBool True] \<and>
   CircuitBreakerConfig.halfOpenAttempts readme_config = 3 \<and>
   state (after_calls [readme_config] svc
     [RecordFailure 0, RecordFailure 0, RecordFailure 0, RecordFailure 0, RecordFailure 0,
      CanExecute 59999,
      CanExecute 60000, CanExecute 60001, CanExecute 60002, CanExecute 60003, CanExecute 60004])
     = HALF_OPEN"
  by (simp add: call_RecordFailure call_CanExecute recordFailure_cases canExecute_cases example_defs)

section \<open>Notifications\<close>

text \<open>
  C2, as stated: no operation that leaves the state value unchanged emits a notification.
  \<^verbatim>\<open>reset\<close> on a breaker that is already \<open>CLOSED\<close> leaves the state \<open>CLOSED\<close> and emits
  \<^verbatim>\<open>'reset'\<close>.
\<close>

theorem reset_closed_emits:
  "state (breaker (call_breaker [readme_config] svc Reset)) = state svc \<and>
   emitted (call_breaker [readme_config] svc Reset) = [ResetEvent ''svc'']"
  by (simp add: call_breaker_def reset_def example_defs)

text \<open>
  C2, amended: \<^verbatim>\<open>reset\<close> emits exactly one \<^verbatim>\<open>'reset'\<close> notification from every state, also
  when the breaker is already \<open>CLOSED\<close>, and leaves the breaker \<open>CLOSED\<close>. Every other call
  emits no \<^verbatim>\<open>'reset'\<close> notification, and emits nothing at all when it leaves the state value
  unchanged. So \<^verbatim>\<open>'opened'\<close>, \<^verbatim>\<open>'closed'\<close> and \<^verbatim>\<open>'half-open'\<close> are emitted only by calls that
  change the state value.
\<close>

theorem self_transition_silent:
  "emitted (call_breaker cs b Reset) = [ResetEvent (agentName b)] \<and>
   state (breaker (call_breaker cs b Reset)) = CLOSED \<and>
   (c \<noteq> Reset \<longrightarrow>
      ResetEvent n \<notin> set (emitted (call_breaker cs b c)) \<and>
      (state (breaker (call_breaker cs b c)) = state b \<longrightarrow>
         emitted (call_breaker cs b c) = []))"
proof (intro conjI impI)
  show "emitted (call_breaker cs b Reset) = [ResetEvent (agentName b)]"
    by (simp add: call_breaker_def reset_def)
  show "state (breaker (call_breaker cs b Reset)) = CLOSED"
    by (simp add: call_breaker_def reset_def)
next
  assume "c \<noteq> Reset"
  then show "ResetEvent n \<notin> set (emitted (call_breaker cs b c))"
    by (cases c; cases "state b") (simp_all add: call_simps split: if_splits)
next
  assume "c \<noteq> Reset" and "state (breaker (call_breaker cs b c)) = state b"
  then show "emitted (call_breaker cs b c) = []"
    by (cases c; cases "state b") (simp_all add: call_simps split: if_splits)
qed

theorem self_transition_silent_witness:
  "state tripped = OPEN \<and>
   emitted (call_breaker [readme_config] tripped Reset) = [ResetEvent ''svc''] \<and>
   state (breaker (call_breaker [readme_config] tripped Reset)) = CLOSED \<and>
   state (breaker (call_breaker [readme_config] tripped (CanExecute 100))) = state tripped \<and>
   emitted (call_breaker [readme_config] tripped (CanExecute 100)) = [] \<and>
   state (breaker (call_breaker [readme_config] svc (RecordFailure 100))) = state svc \<and>
   emitted (call_breaker [readme_config] svc (RecordFailure 100)) = []"
  using self_transition_silent [of "[readme_config]" tripped "CanExecute 100"]
        self_transition_silent [of "[readme_config]" svc "RecordFailure 100"]
  by (simp add: tripped_eq call_RecordFailure call_CanExecute recordFailure_cases
        canExecute_cases example_defs)

section \<open>Failures while closed\<close>

text \<open>\<^verbatim>\<open>recordFailure\<close> never touches \<^verbatim>\<open>this.config\<close>.\<close>

lemma recordFailure_config:
  "this_config cs (fst (recordFailure cs t b)) = this_config cs b"
  by (cases "state b") (simp_all add: recordFailure_cases this_config_def)

lemma failures_keep_open:
  "state b = OPEN \<Longrightarrow> state (after_calls cs b (map RecordFailure ts)) = OPEN"
proof (induction ts arbitrary: b)
  case Nil
  then show ?case by simp
next
  case (Cons t ts)
  have "state (fst (recordFailure cs t b)) = OPEN"
    using Cons.prems by (simp add: recordFailure_cases)
  then show ?case
    by (simp add: call_RecordFailure Cons.IH)
qed

lemma failures_below_threshold:
  "state b = CLOSED \<Longrightarrow>
   failureCount b + int (length ts) < failureThreshold (this_config cs b) \<Longrightarrow>
   state (after_calls cs b (map RecordFailure ts)) = CLOSED"
proof (induction ts arbitrary: b)
  case Nil
  then show ?case by simp
next
  case (Cons t ts)
  let ?b1 = "fst (recordFailure cs t b)"
  have st: "state ?b1 = CLOSED"
    using Cons.prems by (simp add: recordFailure_cases)
  have fc: "failureCount ?b1 = failureCount b + 1"
    using Cons.prems by (simp add: recordFailure_cases)
  have "failureCount ?b1 + int (length ts) < failureThreshold (this_config cs ?b1)"
    using Cons.prems(2) fc by (simp add: recordFailure_config)
  with st have "state (after_calls cs ?b1 (map RecordFailure ts)) = CLOSED"
    by (rule Cons.IH)
  then show ?case
    by (simp add: call_RecordFailure)
qed

lemma failures_reach_threshold:
  "state b = CLOSED \<Longrightarrow> ts \<noteq> [] \<Longrightarrow>
   failureThreshold (this_config cs b) \<le> failureCount b + int (length ts) \<Longrightarrow>
   state (after_calls cs b (map RecordFailure ts)) = OPEN"
proof (induction ts arbitrary: b)
  case Nil
  then show ?case by simp
next
  case (Cons t ts)
  let ?b1 = "fst (recordFailure cs t b)"
  show ?case
  proof (cases "failureThreshold (this_config cs b) \<le> failureCount b + 1")
    case True
    then have "state ?b1 = OPEN"
      using Cons.prems(1) by (simp add: recordFailure_cases)
    then have "state (after_calls cs ?b1 (map RecordFailure ts)) = OPEN"
      by (rule failures_keep_open)
    then show ?thesis by (simp add: call_RecordFailure)
  next
    case False
    then have st: "state ?b1 = CLOSED" and fc: "failureCount ?b1 = failureCount b + 1"
      using Cons.prems(1) by (simp_all add: recordFailure_cases)
    from False Cons.prems(3) have ne: "ts \<noteq> []" by auto
    have "failureThreshold (this_config cs ?b1) \<le> failureCount ?b1 + int (length ts)"
      using Cons.prems(3) fc by (simp add: recordFailure_config)
    with st ne have "state (after_calls cs ?b1 (map RecordFailure ts)) = OPEN"
      by (rule Cons.IH)
    then show ?thesis by (simp add: call_RecordFailure)
  qed
qed

text \<open>
  C3, as stated: from any breaker in \<open>CLOSED\<close>, \<open>failureThreshold - 1\<close> consecutive failures
  leave it \<open>CLOSED\<close>. A success only takes one off \<open>failureCount\<close>: after four failures and
  one success the breaker is \<open>CLOSED\<close> with \<open>failureCount = 3\<close>, and the four failures that
  follow (threshold 5) open it.
\<close>

theorem residual_failures_open_early:
  "state (after_calls [readme_config] svc
      [RecordFailure 0, RecordFailure 0, RecordFailure 0, RecordFailure 0, RecordSuccess]) = CLOSED \<and>
   failureCount (after_calls [readme_config] svc
      [RecordFailure 0, RecordFailure 0, RecordFailure 0, RecordFailure 0, RecordSuccess]) = 3 \<and>
   failureThreshold (this_config [readme_config] svc) - 1 = int (length [1, 2, 3, 4 :: int]) \<and>
   state (after_calls [readme_config]
      (after_calls [readme_config] svc
         [RecordFailure 0, RecordFailure 0, RecordFailure 0, RecordFailure 0, RecordSuccess])
      (map RecordFailure [1, 2, 3, 4])) = OPEN"
  by (simp add: call_breaker_def recordSuccess_cases recordFailure_cases example_defs)

text \<open>
  C3, amended: for a breaker in \<open>CLOSED\<close> with a non-negative \<open>failureCount\<close> and a threshold
  of at least 1, \<open>failureThreshold\<close> consecutive calls of \<^verbatim>\<open>recordFailure\<close> (at any times)
  leave it \<open>OPEN\<close>; and when \<open>failureCount\<close> is 0 at the start, as after construction, reset
  or recovery, \<open>failureThreshold - 1\<close> such calls leave it \<open>CLOSED\<close>.
\<close>

theorem failures_until_open:
  "state b = CLOSED \<Longrightarrow> 0 \<le> failureCount b \<Longrightarrow> 1 \<le> failureThreshold (this_config cs b) \<Longrightarrow>
     (int (length ts) = failureThreshold (this_config cs b) \<longrightarrow>
        state (after_calls cs b (map RecordFailure ts)) = OPEN) \<and>
     (failureCount b = 0 \<and> int (length ts) = failureThreshold (this_config cs b) - 1 \<longrightarrow>
        state (after_calls cs b (map RecordFailure ts)) = CLOSED)"
proof (intro conjI impI)
  assume a: "state b = CLOSED" "0 \<le> failureCount b" "1 \<le> failureThreshold (this_config cs b)"
  {
    assume l: "int (length ts) = failureThreshold (this_config cs b)"
    with a(3) have "ts \<noteq> []" by auto
    with a l show "state (after_calls cs b (map RecordFailure ts)) = OPEN"
      by (simp add: failures_reach_threshold)
  }
  {
    assume l: "failureCount b = 0 \<and> int (length ts) = failureThreshold (this_config cs b) - 1"
    with a show "state (after_calls cs b (map RecordFailure ts)) = CLOSED"
      by (simp add: failures_below_threshold)
  }
qed

theorem failures_until_open_witness:
  "state svc = CLOSED \<and> failureCount svc = 0 \<and>
   failureThreshold (this_config [readme_config] svc) = 5 \<and>
   state (after_calls [readme_config] svc (map RecordFailure [1, 2, 3, 4, 5])) = OPEN \<and>
   state (after_calls [readme_config] svc (map RecordFailure [1, 2, 3, 4])) = CLOSED"
  using failures_until_open [of svc "[readme_config]" "[1, 2, 3, 4, 5]"]
        failures_until_open [of svc "[readme_config]" "[1, 2, 3, 4]"]
  by (simp add: example_defs)

section \<open>Recovery timeout\<close>

text \<open>
  C4: for a breaker in \<open>OPEN\<close>, a query at a time less than \<open>recoveryTimeout\<close> after
  \<open>lastFailureTime\<close> returns false and changes nothing; a query at a time at least
  \<open>recoveryTimeout\<close> after it returns true and leaves the breaker \<open>HALF_OPEN\<close>.
\<close>

theorem canExecute_open_timeout:
  "state b = OPEN \<Longrightarrow>
     (now - lastFailureTime b < recoveryTimeout (this_config cs b) \<longrightarrow>
        canExecute cs now b = (False, b, [])) \<and>
     (recoveryTimeout (this_config cs b) \<le> now - lastFailureTime b \<longrightarrow>
        fst (canExecute cs now b) = True \<and>
        state (fst (snd (canExecute cs now b))) = HALF_OPEN)"
  by (simp add: canExecute_cases)

theorem canExecute_open_timeout_witness:
  "state (tripped\<lparr>lastFailureTime := 1000\<rparr>) = OPEN \<and>
   canExecute [readme_config] 60999 (tripped\<lparr>lastFailureTime := 1000\<rparr>)
     = (False, tripped\<lparr>lastFailureTime := 1000\<rparr>, []) \<and>
   fst (canExecute [readme_config] 61000 (tripped\<lparr>lastFailureTime := 1000\<rparr>)) = True \<and>
   state (fst (snd (canExecute [readme_config] 61000 (tripped\<lparr>lastFailureTime := 1000\<rparr>))))
     = HALF_OPEN"
  using canExecute_open_timeout [of "tripped\<lparr>lastFailureTime := 1000\<rparr>" 60999 "[readme_config]"]
        canExecute_open_timeout [of "tripped\<lparr>lastFailureTime := 1000\<rparr>" 61000 "[readme_config]"]
  by (simp add: tripped_eq example_defs)

section \<open>Successes while closed\<close>

text \<open>
  C5: in \<open>CLOSED\<close>, \<^verbatim>\<open>recordSuccess\<close> sets \<open>failureCount\<close> to \<open>max 0 (failureCount - 1)\<close>: one
  less when it was at least 1, never negative, and the state stays \<open>CLOSED\<close>. The witness
  is the example of the specification: threshold 5, four failures, one success, count 3.
\<close>

theorem recordSuccess_closed:
  "state b = CLOSED \<Longrightarrow>
     failureCount (fst (recordSuccess b)) = max 0 (failureCount b - 1) \<and>
     0 \<le> failureCount (fst (recordSuccess b)) \<and>
     (1 \<le> failureCount b \<longrightarrow> failureCount (fst (recordSuccess b)) = failureCount b - 1) \<and>
     state (fst (recordSuccess b)) = CLOSED"
  by (simp add: recordSuccess_cases)

theorem recordSuccess_closed_witness:
  "state (after_calls [readme_config] svc
            [RecordFailure 10, RecordFailure 20, RecordFailure 30, RecordFailure 40]) = CLOSED \<and>
   failureCount (after_calls [readme_config] svc
            [RecordFailure 10, RecordFailure 20, RecordFailure 30, RecordFailure 40]) = 4 \<and>
   failureCount (fst (recordSuccess (after_calls [readme_config] svc
            [RecordFailure 10, RecordFailure 20, RecordFailure 30, RecordFailure 40]))) = 3 \<and>
   state (fst (recordSuccess (after_calls [readme_config] svc
            [RecordFailure 10, RecordFailure 20, RecordFailure 30, RecordFailure 40]))) = CLOSED"
  using recordSuccess_closed [of "after_calls [readme_config] svc
            [RecordFailure 10, RecordFailure 20, RecordFailure 30, RecordFailure 40]"]
  by (simp add: call_RecordFailure recordFailure_cases example_defs)

section \<open>The probe counter on entering a state\<close>

text \<open>
  C6, as stated: right after an operation that makes the breaker enter \<open>OPEN\<close> or
  \<open>HALF_OPEN\<close>, \<open>halfOpenAttempts\<close> is 0. The query that takes the tripped breaker from
  \<open>OPEN\<close> to \<open>HALF_OPEN\<close> leaves the counter at 1: \<^verbatim>\<open>transitionToHalfOpen\<close> sets it to 0
  and then increments it.
\<close>

theorem half_open_entry_counter_is_one:
  "state tripped = OPEN \<and>
   state (breaker (call_breaker [readme_config] tripped (CanExecute 60000))) = HALF_OPEN \<and>
   halfOpenAttempts (breaker (call_breaker [readme_config] tripped (CanExecute 60000))) = 1"
  by (simp add: tripped_eq call_CanExecute canExecute_cases example_defs)

text \<open>
  C6, amended: right after any call that changes the state value, \<open>halfOpenAttempts\<close> is 1
  when the state entered is \<open>HALF_OPEN\<close> and 0 otherwise, so it is 0 on entering \<open>OPEN\<close>.
\<close>

theorem entering_attempts:
  "state (breaker (call_breaker cs b c)) \<noteq> state b \<Longrightarrow>
   halfOpenAttempts (breaker (call_breaker cs b c)) =
     (if state (breaker (call_breaker cs b c)) = HALF_OPEN then 1 else 0)"
  by (cases c; cases "state b") (simp_all add: call_simps split: if_splits)

theorem entering_attempts_witness:
  "state tripped = OPEN \<and>
   state (breaker (call_breaker [readme_config] tripped (CanExecute 60000))) = HALF_OPEN \<and>
   halfOpenAttempts (breaker (call_breaker [readme_config] tripped (CanExecute 60000))) = 1 \<and>
   state (svc\<lparr>failureCount := 4, halfOpenAttempts := 1\<rparr>) = CLOSED \<and>
   state (breaker (call_breaker [readme_config]
            (svc\<lparr>failureCount := 4, halfOpenAttempts := 1\<rparr>) (RecordFailure 7))) = OPEN \<and>
   halfOpenAttempts (breaker (call_breaker [readme_config]
            (svc\<lparr>failureCount := 4, halfOpenAttempts := 1\<rparr>) (RecordFailure 7))) = 0"
  using entering_attempts [of "[readme_config]" tripped "CanExecute 60000"]
        entering_attempts [of "[readme_config]" "svc\<lparr>failureCount := 4, halfOpenAttempts := 1\<rparr>"
                              "RecordFailure 7"]
  by (simp add: tripped_eq call_RecordFailure call_CanExecute recordFailure_cases
        canExecute_cases example_defs)

section \<open>The status snapshot\<close>

text \<open>
  C7: \<^verbatim>\<open>getStatus\<close> computes its \<open>canExecute\<close> field by calling \<^verbatim>\<open>canExecute\<close>, so it has the
  effect of that call on the breaker and emits what it emits; on a breaker in \<open>OPEN\<close> whose
  recovery timeout has elapsed it leaves the breaker \<open>HALF_OPEN\<close>, and in every other
  situation it leaves the breaker as it was and emits nothing.
\<close>

theorem getStatus_effect:
  "snd (getStatus cs now b) = snd (canExecute cs now b) \<and>
   status_canExecute (fst (getStatus cs now b)) = fst (canExecute cs now b) \<and>
   (state b = OPEN \<and> recoveryTimeout (this_config cs b) \<le> now - lastFailureTime b \<longrightarrow>
      state (fst (snd (getStatus cs now b))) = HALF_OPEN) \<and>
   (\<not> (state b = OPEN \<and> recoveryTimeout (this_config cs b) \<le> now - lastFailureTime b) \<longrightarrow>
      snd (getStatus cs now b) = (b, []))"
  by (cases "state b") (simp_all add: getStatus_cases canExecute_cases)

theorem getStatus_effect_witness:
  "state tripped = OPEN \<and>
   state (fst (snd (getStatus [readme_config] 60000 tripped))) = HALF_OPEN \<and>
   status_state (fst (getStatus [readme_config] 60000 tripped)) = OPEN \<and>
   status_canExecute (fst (getStatus [readme_config] 60000 tripped)) = True \<and>
   snd (getStatus [readme_config] 59999 tripped) = (tripped, []) \<and>
   snd (getStatus [readme_config] 60000 svc) = (svc, [])"
  using getStatus_effect [of "[readme_config]" 60000 tripped]
        getStatus_effect [of "[readme_config]" 59999 tripped]
        getStatus_effect [of "[readme_config]" 60000 svc]
  by (simp add: tripped_eq getStatus_cases canExecute_cases example_defs)

section \<open>The manager's getBreaker\<close>

lemma getBreaker_present:
  "breakers m name = Some a \<Longrightarrow> getBreaker h m name cfg = (a, h, m)"
  by (simp add: getBreaker_def)

lemma getBreaker_registers:
  "getBreaker h m name cfg = (a, h1, m1) \<Longrightarrow> breakers m1 name = Some a"
  by (auto simp: getBreaker_def Let_def split: option.splits)

text \<open>
  C8: a second \<^verbatim>\<open>getBreaker\<close> with the same name returns the reference the first call
  returned, whatever configuration argument it is given, and changes neither the manager
  nor any breaker: the argument is ignored.
\<close>

theorem getBreaker_twice:
  "getBreaker h m name cfg1 = (a, h1, m1) \<Longrightarrow> getBreaker h1 m1 name cfg2 = (a, h1, m1)"
  using getBreaker_present [OF getBreaker_registers] .

theorem getBreaker_twice_witness:
  "getBreaker [] (new_CircuitBreakerManager 0) ''svc'' None =
     (0, [svc], \<lparr>breakers = [''svc'' \<mapsto> 0], defaultConfig = 0\<rparr>) \<and>
   getBreaker [svc] \<lparr>breakers = [''svc'' \<mapsto> 0], defaultConfig = 0\<rparr> ''svc'' (Some 1) =
     (0, [svc], \<lparr>breakers = [''svc'' \<mapsto> 0], defaultConfig = 0\<rparr>)"
proof -
  have first: "getBreaker [] (new_CircuitBreakerManager 0) ''svc'' None =
     (0, [svc], \<lparr>breakers = [''svc'' \<mapsto> 0], defaultConfig = 0\<rparr>)"
    by (simp add: getBreaker_def new_CircuitBreakerManager_def svc_def)
  from first getBreaker_twice [OF first, of "Some 1"] show ?thesis by simp
qed

section \<open>The half-open notification\<close>

text \<open>
  C9: whenever a call emits a \<^verbatim>\<open>'half-open'\<close> notification, its \<open>attemptNumber\<close> is 0 and it
  names the breaker; the call took the breaker from \<open>OPEN\<close> to \<open>HALF_OPEN\<close> and left
  \<open>halfOpenAttempts\<close> at 1.
\<close>

theorem half_open_event:
  "HalfOpened n a \<in> set (emitted (call_breaker cs b c)) \<Longrightarrow>
   a = 0 \<and> n = agentName b \<and> state b = OPEN \<and>
   state (breaker (call_breaker cs b c)) = HALF_OPEN \<and>
   halfOpenAttempts (breaker (call_breaker cs b c)) = 1"
  by (cases c; cases "state b") (simp_all add: call_simps split: if_splits)

theorem half_open_event_witness:
  "emitted (call_breaker [readme_config] tripped (CanExecute 60000)) = [HalfOpened ''svc'' 0] \<and>
   state tripped = OPEN \<and>
   state (breaker (call_breaker [readme_config] tripped (CanExecute 60000))) = HALF_OPEN \<and>
   halfOpenAttempts (breaker (call_breaker [readme_config] tripped (CanExecute 60000))) = 1"
proof -
  have ev: "emitted (call_breaker [readme_config] tripped (CanExecute 60000))
              = [HalfOpened ''svc'' 0]"
    by (simp add: tripped_eq call_CanExecute canExecute_cases example_defs)
  then have "HalfOpened ''svc'' 0
               \<in> set (emitted (call_breaker [readme_config] tripped (CanExecute 60000)))"
    by simp
  from ev half_open_event [OF this] show ?thesis by simp
qed

section \<open>Configuration objects\<close>

lemma this_config_append:
  "config b < length cs \<Longrightarrow> this_config (cs @ xs) b = this_config cs b"
  by (simp add: this_config_def nth_append)

lemma call_breaker_config_frame:
  "config b < length cs \<Longrightarrow> \<forall>p. c \<noteq> SetConfig p \<Longrightarrow>
   this_config (store (call_breaker cs b c)) (breaker (call_breaker cs b c)) = this_config cs b"
  by (cases c; cases "state b")
     (simp_all add: call_simps this_config_def nth_append split: if_splits)

text \<open>
  C10, as stated: the only way to change the breaker's effective configuration is
  \<^verbatim>\<open>setConfig\<close>. The constructor stores the reference it is given, so the caller that
  built the breaker from the object at reference 0 changes the breaker's threshold by
  assigning to that object: one failure, which left the breaker \<open>CLOSED\<close> before, now opens
  it, and \<^verbatim>\<open>setConfig\<close> was never called.
\<close>

theorem constructor_config_aliased:
  "this_config [readme_config] svc = readme_config \<and>
   state (after_calls [readme_config] svc [RecordFailure 0]) = CLOSED \<and>
   this_config (assign_config [readme_config] 0 (readme_config\<lparr>failureThreshold := 1\<rparr>)) svc
     = readme_config\<lparr>failureThreshold := 1\<rparr> \<and>
   readme_config\<lparr>failureThreshold := 1\<rparr> \<noteq> readme_config \<and>
   state (after_calls (assign_config [readme_config] 0 (readme_config\<lparr>failureThreshold := 1\<rparr>))
            svc [RecordFailure 0]) = OPEN"
  by (simp add: assign_config_def call_RecordFailure recordFailure_cases example_defs)

text \<open>
  C10, amended: \<^verbatim>\<open>getConfig\<close> returns a new object, distinct from the one the breaker
  holds, with the same fields; it leaves the breaker and its configuration as they were,
  and so does any assignment to the returned object; and among the breaker's own methods
  only \<^verbatim>\<open>setConfig\<close> changes the effective configuration. (The breaker's reference is
  assumed to point into the store, as every reference of a running program does.)
\<close>

theorem getConfig_copy:
  "config b < length cs \<Longrightarrow>
     fst (getConfig cs b) \<noteq> config b \<and>
     snd (getConfig cs b) ! fst (getConfig cs b) = this_config cs b \<and>
     this_config (snd (getConfig cs b)) b = this_config cs b \<and>
     this_config (assign_config (snd (getConfig cs b)) (fst (getConfig cs b)) v) b
       = this_config cs b \<and>
     breaker (call_breaker cs b GetConfig) = b \<and>
     ((\<forall>p. c \<noteq> SetConfig p) \<longrightarrow>
        this_config (store (call_breaker cs b c)) (breaker (call_breaker cs b c))
          = this_config cs b)"
proof (intro conjI impI)
  assume v: "config b < length cs"
  show "fst (getConfig cs b) \<noteq> config b"
    using v by (simp add: getConfig_def)
  show "snd (getConfig cs b) ! fst (getConfig cs b) = this_config cs b"
    by (simp add: getConfig_def)
  show "this_config (snd (getConfig cs b)) b = this_config cs b"
    using v by (simp add: getConfig_def this_config_append)
  show "this_config (assign_config (snd (getConfig cs b)) (fst (getConfig cs b)) v) b
       = this_config cs b"
    using v by (simp add: getConfig_def assign_config_def this_config_def nth_append)
  show "breaker (call_breaker cs b GetConfig) = b"
    by (simp add: call_breaker_def getConfig_def)
  assume "\<forall>p. c \<noteq> SetConfig p"
  with v show "this_config (store (call_breaker cs b c)) (breaker (call_breaker cs b c))
          = this_config cs b"
    by (rule call_breaker_config_frame)
qed

theorem getConfig_copy_witness:
  "config svc < length [readme_config] \<and>
   fst (getConfig [readme_config] svc) = 1 \<and>
   this_config (assign_config (snd (getConfig [readme_config] svc)) 1
                  (readme_config\<lparr>failureThreshold := 1\<rparr>)) svc = readme_config \<and>
   this_config (store (call_breaker [readme_config] svc (RecordFailure 9)))
               (breaker (call_breaker [readme_config] svc (RecordFailure 9))) = readme_config"
  using getConfig_copy [of svc "[readme_config]" "readme_config\<lparr>failureThreshold := 1\<rparr>"
                           "RecordFailure 9"]
  by (simp add: getConfig_def svc_def new_CircuitBreaker_def this_config_def)

end
